theory Spec2Isabelle
  imports Main "HOL-Library.AList" "HOL-Library.Multiset" "HOL-Library.Sublist"
begin

section \<open>Data model of \<open>usePreemptJobs.ts\<close>\<close>

text \<open>
  A \<open>JobId\<close> is a string. Of a \<open>Job\<close> the hook reads three fields only: \<open>jobId\<close>,
  \<open>queue\<close> and \<open>jobSet\<close>; the other fields of the TypeScript type live in the record's
  extension slot, so every function below takes an \<open>'a Job_scheme\<close>.
\<close>

type_synonym JobId = string

record Job =
  jobId :: JobId
  queue :: string
  jobSet :: string

text \<open>
  \<open>UpdateJobsResponse\<close>: an entry \<open>{ jobId, errorReason }\<close> of \<open>failedJobIds\<close> is the
  pair \<open>(jobId, errorReason)\<close>.
\<close>

record UpdateJobsResponse =
  successfulJobIds :: "JobId list"
  failedJobIds :: "(JobId \<times> string) list"

text \<open>
  \<open>PreemptJobsVariables\<close> is destructured in the parameter list of the mutation
  function (line 49): its fields \<open>jobs\<close> and \<open>reason\<close> are two arguments below. Of the
  configuration the hook reads one field.
\<close>

record Config =
  fakeDataEnabled :: bool

subsection \<open>JavaScript \<open>Map\<close> with string keys\<close>

text \<open>
  A JavaScript \<open>Map\<close> iterates in insertion order, and \<open>set\<close> on a key that is present
  replaces the value where it stands. It is an association list whose \<open>set\<close> replaces
  the first entry of the key or appends a new entry at the end.
\<close>

type_synonym 'v JsMap = "(string \<times> 'v) list"

definition Map_has :: "'v JsMap \<Rightarrow> string \<Rightarrow> bool" where
  "Map_has m k = (map_of m k \<noteq> None)"

definition Map_get :: "'v JsMap \<Rightarrow> string \<Rightarrow> 'v option" where
  "Map_get m k = map_of m k"

definition Map_set :: "'v JsMap \<Rightarrow> string \<Rightarrow> 'v \<Rightarrow> 'v JsMap" where
  "Map_set m k v = AList.update k v m"

section \<open>\<open>createJobBatches\<close>\<close>

type_synonym Batches = "JobId list list"
type_synonym Chunks = "Batches JsMap JsMap"

text \<open>
  One iteration of the loop over \<open>jobs\<close> (lines 24 to 40). The arrays and the inner maps
  are mutated in place in the source; the model stores the changed array back under its
  keys. The optional chaining of lines 28, 29 and 32 is written out: where a lookup gives
  \<open>undefined\<close>, \<open>has\<close> is falsy, \<open>set\<close> is skipped, and \<open>batches\<close> is a fresh array that
  is not part of \<open>result\<close>. Line 33 reads the last batch only when \<open>batches\<close> is not
  empty, and so does the model: when \<open>batches\<close> is empty the first disjunct decides.
  \<open>batchSize\<close> is a JavaScript number; the model takes the integers, negative ones
  included. A number that is not a non-negative integer equals no length, as a negative
  integer does.
\<close>

definition createJobBatches_step :: "int \<Rightarrow> Chunks \<Rightarrow> 'a Job_scheme \<Rightarrow> Chunks" where
  "createJobBatches_step batchSize result job =
    (let result1 =
           (if \<not> Map_has result (queue job) then Map_set result (queue job) [] else result);
         result2 =
           (case Map_get result1 (queue job) of
              None \<Rightarrow> result1
            | Some jobSetMap \<Rightarrow>
                if \<not> Map_has jobSetMap (jobSet job)
                then Map_set result1 (queue job) (Map_set jobSetMap (jobSet job) [])
                else result1)
     in case Map_get result2 (queue job) of
          None \<Rightarrow> result2
        | Some jobSetMap \<Rightarrow>
            (case Map_get jobSetMap (jobSet job) of
               None \<Rightarrow> result2
             | Some batches \<Rightarrow>
                 if length batches = 0 \<or> int (length (last batches)) = batchSize
                 then Map_set result2 (queue job)
                        (Map_set jobSetMap (jobSet job) (batches @ [[jobId job]]))
                 else Map_set result2 (queue job)
                        (Map_set jobSetMap (jobSet job)
                           (butlast batches @ [last batches @ [jobId job]]))))"

definition createJobBatches :: "'a Job_scheme list \<Rightarrow> int \<Rightarrow> Chunks" where
  "createJobBatches jobs batchSize = foldl (createJobBatches_step batchSize) [] jobs"

text \<open>Every batch of the structure, over all queues and job-sets, in iteration order.\<close>

definition allBatches :: "Chunks \<Rightarrow> Batches" where
  "allBatches chunks = concat (map (\<lambda>(q, jobSetMap). concat (map snd jobSetMap)) chunks)"

section \<open>The mutation function of \<open>usePreemptJobs\<close>\<close>

text \<open>The body of one call of \<open>submitApi.preemptJobs\<close> (lines 70 to 75).\<close>

record PreemptJobsBody =
  body_jobIds :: "JobId list"
  body_queue :: string
  body_jobSetId :: string
  body_reason :: string

text \<open>
  \<open>submitApi\<close> is outside the file: it is a parameter. A call either throws where it
  stands, or returns a promise; a promise is given by how it settles, and the value of a
  fulfilled promise is never read. A promise that never settles is outside the model: the
  mutation would wait for it for ever. The answer may depend on the position of the call
  in the run as well as on the body. Errors are values of any type \<open>'e\<close>.
\<close>

datatype 'e Promise = Fulfilled | Rejected 'e

datatype 'e Call = Throws 'e | Returns "'e Promise"

type_synonym 'e SubmitApi = "nat \<Rightarrow> PreemptJobsBody \<Rightarrow> 'e Call"

record 'e ApiResponsePromise =
  promise :: "'e Promise"
  jobIds :: "JobId list"

definition maxJobsPerRequest :: int where
  "maxJobsPerRequest = 10000"

text \<open>
  The bodies of the three nested loops of lines 65 to 81, in the order the loops visit
  the batches.
\<close>

definition requestBodies :: "string \<Rightarrow> Chunks \<Rightarrow> PreemptJobsBody list" where
  "requestBodies reason chunks =
    concat (map (\<lambda>(q, jobSetMap).
      concat (map (\<lambda>(js, batches).
        map (\<lambda>batch. \<lparr>body_jobIds = batch, body_queue = q, body_jobSetId = js,
                       body_reason = reason\<rparr>) batches) jobSetMap)) chunks)"

text \<open>
  Issuing the requests: each body is passed to \<open>submitApi.preemptJobs\<close> and the promise
  is pushed with the batch. A call that throws ends the loops with its error. The second
  component is the list of the calls made, the throwing one included.
\<close>

fun issueRequests ::
  "'e SubmitApi \<Rightarrow> nat \<Rightarrow> PreemptJobsBody list
    \<Rightarrow> ('e + 'e ApiResponsePromise list) \<times> PreemptJobsBody list" where
  "issueRequests submitApi n [] = (Inr [], [])"
| "issueRequests submitApi n (b # bs) =
    (case submitApi n b of
       Throws e \<Rightarrow> (Inl e, [b])
     | Returns p \<Rightarrow>
         (case issueRequests submitApi (Suc n) bs of
            (Inl e, calls) \<Rightarrow> (Inl e, b # calls)
          | (Inr ps, calls) \<Rightarrow> (Inr (\<lparr>promise = p, jobIds = body_jobIds b\<rparr> # ps), b # calls)))"

text \<open>
  The loop of lines 83 to 96, with \<open>response\<close> as its state. \<open>getErrorMessage\<close> is
  outside the file: it is a parameter, a function from errors to strings.
\<close>

fun awaitResponses ::
  "('e \<Rightarrow> string) \<Rightarrow> UpdateJobsResponse \<Rightarrow> 'e ApiResponsePromise list \<Rightarrow> UpdateJobsResponse"
  where
  "awaitResponses getErrorMessage response [] = response"
| "awaitResponses getErrorMessage response (apiResponsePromise # rest) =
    (case promise apiResponsePromise of
       Fulfilled \<Rightarrow>
         awaitResponses getErrorMessage
           (response\<lparr>successfulJobIds :=
              successfulJobIds response @ jobIds apiResponsePromise\<rparr>) rest
     | Rejected e \<Rightarrow>
         (let text = getErrorMessage e;
              failedIds = map (\<lambda>jobId. (jobId, text)) (jobIds apiResponsePromise)
          in awaitResponses getErrorMessage
               (response\<lparr>failedJobIds := failedJobIds response @ failedIds\<rparr>) rest))"

text \<open>
  \<open>mutationFn\<close> (lines 49 to 102). The result is \<open>Inr\<close> the response returned or \<open>Inl\<close>
  the string thrown, together with the calls made to \<open>submitApi.preemptJobs\<close>. The one
  second of waiting in fake-data mode is not modelled.
\<close>

definition mutationFn ::
  "Config \<Rightarrow> 'e SubmitApi \<Rightarrow> ('e \<Rightarrow> string) \<Rightarrow> 'a Job_scheme list \<Rightarrow> string
    \<Rightarrow> (string + UpdateJobsResponse) \<times> PreemptJobsBody list" where
  "mutationFn config submitApi getErrorMessage jobs reason =
    (if fakeDataEnabled config
     then (Inr \<lparr>successfulJobIds = map jobId jobs, failedJobIds = []\<rparr>, [])
     else
       (let response = \<lparr>successfulJobIds = [], failedJobIds = []\<rparr>;
            chunks = createJobBatches jobs maxJobsPerRequest
        in case issueRequests submitApi 0 (requestBodies reason chunks) of
             (Inl e, calls) \<Rightarrow> (Inl (getErrorMessage e), calls)
           | (Inr apiResponsePromises, calls) \<Rightarrow>
               (Inr (awaitResponses getErrorMessage response apiResponsePromises), calls)))"

section \<open>Specification of the batching\<close>

text \<open>
  What lines 33 to 39 do to the array \<open>batches\<close> of one group when a job ID arrives,
  and the batches that a list of job IDs arriving one by one leaves behind.
\<close>

definition pushJob :: "int \<Rightarrow> Batches \<Rightarrow> JobId \<Rightarrow> Batches" where
  "pushJob batchSize batches i =
    (if length batches = 0 \<or> int (length (last batches)) = batchSize
     then batches @ [[i]]
     else butlast batches @ [last batches @ [i]])"

definition chunked :: "int \<Rightarrow> JobId list \<Rightarrow> Batches" where
  "chunked batchSize ids = foldl (pushJob batchSize) [] ids"

text \<open>
  Changing the value of a key by a function, from a default when the key is absent: the
  combined effect of \<open>has\<close>, \<open>set\<close> and \<open>get\<close> in one iteration.
\<close>

definition modify :: "'k \<Rightarrow> 'v \<Rightarrow> ('v \<Rightarrow> 'v) \<Rightarrow> ('k \<times> 'v) list \<Rightarrow> ('k \<times> 'v) list" where
  "modify k d f al = AList.update k (f (case map_of al k of None \<Rightarrow> d | Some v \<Rightarrow> v)) al"

text \<open>The distinct elements of a list in the order of their first occurrence.\<close>

fun first_seen :: "'a list \<Rightarrow> 'a list" where
  "first_seen [] = []"
| "first_seen (x # xs) = x # filter (\<lambda>y. y \<noteq> x) (first_seen xs)"

text \<open>
  The batching as the specification words it: the queues in the order of first encounter,
  under each queue its job-sets in the order of first encounter, under each job-set the
  job IDs of its jobs in input order, cut into batches.
\<close>

definition groupedBatches :: "'a Job_scheme list \<Rightarrow> int \<Rightarrow> Chunks" where
  "groupedBatches jobs batchSize =
    map (\<lambda>q. (q,
      map (\<lambda>s. (s, chunked batchSize
                    (map jobId (filter (\<lambda>j. queue j = q \<and> jobSet j = s) jobs))))
        (first_seen (map jobSet (filter (\<lambda>j. queue j = q) jobs)))))
      (first_seen (map queue jobs))"

section \<open>Specification of the aggregation\<close>

text \<open>
  What one settled promise adds to \<open>successfulJobIds\<close> and to \<open>failedJobIds\<close>, and
  the promises pushed when the call at position \<open>k\<close> returns the promise that settles
  as \<open>settled k\<close>.
\<close>

definition fulfilledIds :: "'e ApiResponsePromise \<Rightarrow> JobId list" where
  "fulfilledIds p = (case promise p of Fulfilled \<Rightarrow> jobIds p | Rejected e \<Rightarrow> [])"

definition rejectedIds :: "('e \<Rightarrow> string) \<Rightarrow> 'e ApiResponsePromise \<Rightarrow> (JobId \<times> string) list" where
  "rejectedIds getErrorMessage p =
    (case promise p of Fulfilled \<Rightarrow> [] | Rejected e \<Rightarrow> map (\<lambda>i. (i, getErrorMessage e)) (jobIds p))"

definition promisesOf :: "(nat \<Rightarrow> 'e Promise) \<Rightarrow> nat \<Rightarrow> PreemptJobsBody list \<Rightarrow> 'e ApiResponsePromise list" where
  "promisesOf settled n bs =
     map (\<lambda>k. \<lparr>promise = settled (n + k), jobIds = body_jobIds (bs ! k)\<rparr>) [0..<length bs]"

text \<open>The requests that the mutation makes for a list of jobs, in the order of the loops.\<close>

definition batchRequests :: "string \<Rightarrow> 'a Job_scheme list \<Rightarrow> PreemptJobsBody list" where
  "batchRequests reason jobs = requestBodies reason (createJobBatches jobs maxJobsPerRequest)"

section \<open>The code computes the specified batching\<close>

lemma step_modify:
  "createJobBatches_step n R j =
     modify (queue j) [] (modify (jobSet j) [] (\<lambda>bs. pushJob n bs (jobId j))) R"
  by (auto simp: createJobBatches_step_def modify_def pushJob_def Map_has_def Map_get_def
      Map_set_def Let_def AList.update_conv' split: option.splits)

lemma set_first_seen [simp]: "set (first_seen xs) = set xs"
  by (induction xs) auto

lemma distinct_first_seen [simp]: "distinct (first_seen xs)"
  by (induction xs) auto

lemma first_seen_snoc:
  "first_seen (xs @ [x]) = (if x \<in> set xs then first_seen xs else first_seen xs @ [x])"
  by (induction xs) auto

lemma modify_Nil: "modify k d f [] = [(k, f d)]"
  by (simp add: modify_def)

lemma modify_map:
  "distinct ks \<Longrightarrow> modify k d f (map (\<lambda>q. (q, G q)) ks) =
     (if k \<in> set ks then map (\<lambda>q. (q, if q = k then f (G q) else G q)) ks
      else map (\<lambda>q. (q, G q)) ks @ [(k, f d)])"
proof (induction ks)
  case Nil
  then show ?case by (simp add: modify_def)
next
  case (Cons a ks)
  then show ?case by (auto simp: modify_def map_of_map_restrict restrict_map_def)
qed

lemma chunked_snoc: "chunked n (ids @ [i]) = pushJob n (chunked n ids) i"
  by (simp add: chunked_def)

lemma chunked_Nil: "chunked n [] = []"
  by (simp add: chunked_def)

lemma inner_snoc:
  fixes j :: "'a Job_scheme"
  shows "map (\<lambda>s. (s, chunked n (map jobId (filter (\<lambda>x. queue x = queue j \<and> jobSet x = s) (js @ [j])))))
        (first_seen (map jobSet (filter (\<lambda>x. queue x = queue j) (js @ [j]))))
     = modify (jobSet j) [] (\<lambda>bs. pushJob n bs (jobId j))
        (map (\<lambda>s. (s, chunked n (map jobId (filter (\<lambda>x. queue x = queue j \<and> jobSet x = s) js))))
          (first_seen (map jobSet (filter (\<lambda>x. queue x = queue j) js))))"
proof (cases "jobSet j \<in> set (map jobSet (filter (\<lambda>x. queue x = queue j) js))")
  case True
  then show ?thesis
    by (simp add: modify_map first_seen_snoc chunked_snoc)
next
  case False
  then have ne: "\<And>x. x \<in> set js \<Longrightarrow> queue x = queue j \<Longrightarrow> jobSet j \<noteq> jobSet x"
    by force
  then have "filter (\<lambda>x. queue x = queue j \<and> jobSet x = jobSet j) js = []"
    by (force simp: filter_empty_conv)
  with False ne show ?thesis
    by (simp add: modify_map first_seen_snoc chunked_def)
qed

lemma groupedBatches_snoc:
  "groupedBatches (js @ [j]) n =
     modify (queue j) [] (modify (jobSet j) [] (\<lambda>bs. pushJob n bs (jobId j)))
       (groupedBatches js n)"
proof (cases "queue j \<in> set (map queue js)")
  case True
  have "groupedBatches (js @ [j]) n =
     map (\<lambda>q. (q, map (\<lambda>s. (s, chunked n (map jobId (filter (\<lambda>x. queue x = q \<and> jobSet x = s) (js @ [j])))))
        (first_seen (map jobSet (filter (\<lambda>x. queue x = q) (js @ [j]))))))
      (first_seen (map queue js))"
    using True by (simp add: groupedBatches_def first_seen_snoc)
  also have "\<dots> = map (\<lambda>q. (q, if q = queue j
        then modify (jobSet j) [] (\<lambda>bs. pushJob n bs (jobId j))
          (map (\<lambda>s. (s, chunked n (map jobId (filter (\<lambda>x. queue x = q \<and> jobSet x = s) js))))
            (first_seen (map jobSet (filter (\<lambda>x. queue x = q) js))))
        else map (\<lambda>s. (s, chunked n (map jobId (filter (\<lambda>x. queue x = q \<and> jobSet x = s) js))))
            (first_seen (map jobSet (filter (\<lambda>x. queue x = q) js)))))
      (first_seen (map queue js))"
  proof (rule map_cong[OF refl])
    fix q
    show "(q, map (\<lambda>s. (s, chunked n (map jobId (filter (\<lambda>x. queue x = q \<and> jobSet x = s) (js @ [j])))))
        (first_seen (map jobSet (filter (\<lambda>x. queue x = q) (js @ [j])))))
      = (q, if q = queue j
        then modify (jobSet j) [] (\<lambda>bs. pushJob n bs (jobId j))
          (map (\<lambda>s. (s, chunked n (map jobId (filter (\<lambda>x. queue x = q \<and> jobSet x = s) js))))
            (first_seen (map jobSet (filter (\<lambda>x. queue x = q) js))))
        else map (\<lambda>s. (s, chunked n (map jobId (filter (\<lambda>x. queue x = q \<and> jobSet x = s) js))))
            (first_seen (map jobSet (filter (\<lambda>x. queue x = q) js))))"
    proof (cases "q = queue j")
      case True
      show ?thesis unfolding True inner_snoc by simp
    next
      case False
      then show ?thesis by simp
    qed
  qed
  also have "\<dots> = modify (queue j) [] (modify (jobSet j) [] (\<lambda>bs. pushJob n bs (jobId j)))
       (groupedBatches js n)"
    using True by (simp add: groupedBatches_def modify_map)
  finally show ?thesis .
next
  case False
  then have ne: "\<And>x. x \<in> set js \<Longrightarrow> queue j \<noteq> queue x"
    by force
  then have "filter (\<lambda>x. queue x = queue j) js = []"
    and "filter (\<lambda>x. queue x = queue j \<and> jobSet x = jobSet j) js = []"
    by (force simp: filter_empty_conv)+
  with False ne show ?thesis
    by (simp add: groupedBatches_def modify_map first_seen_snoc chunked_def
        modify_Nil)
qed

lemma createJobBatches_grouped: "createJobBatches jobs n = groupedBatches jobs n"
proof (induction jobs rule: rev_induct)
  case Nil
  show ?case by (simp add: createJobBatches_def groupedBatches_def)
next
  case (snoc j js)
  then show ?case
    by (simp add: createJobBatches_def step_modify groupedBatches_snoc)
qed


section \<open>Facts about the batches\<close>

lemma pushJob_concat: "concat (pushJob n bs i) = concat bs @ [i]"
proof (cases "bs = []")
  case True
  then show ?thesis by (simp add: pushJob_def)
next
  case False
  then have "concat bs = concat (butlast bs) @ last bs"
    by (metis append_butlast_last_id concat.simps concat_append append_Nil2)
  with False show ?thesis by (simp add: pushJob_def)
qed

lemma concat_chunked: "concat (chunked n ids) = ids"
  by (induction ids rule: rev_induct) (simp_all add: chunked_Nil chunked_snoc pushJob_concat)

lemma set_pushJob_else:
  "bs \<noteq> [] \<Longrightarrow> set (butlast bs @ [last bs @ [i]]) \<subseteq> insert (last bs @ [i]) (set bs)"
  by (auto dest: in_set_butlastD)

lemma pushJob_bound:
  assumes "1 \<le> n" and "\<forall>b\<in>set bs. int (length b) \<le> n"
  shows "\<forall>b\<in>set (pushJob n bs i). int (length b) \<le> n"
proof (cases "length bs = 0 \<or> int (length (last bs)) = n")
  case True
  with assms show ?thesis by (auto simp: pushJob_def)
next
  case False
  then have ne: "bs \<noteq> []" and "int (length (last bs)) \<noteq> n" by auto
  moreover from ne assms(2) have "int (length (last bs)) \<le> n" by simp
  ultimately have "int (length (last bs @ [i])) \<le> n" by simp
  with assms(2) set_pushJob_else[OF ne, of i] False show ?thesis
    by (auto simp: pushJob_def)
qed

lemma chunked_bound: "1 \<le> n \<Longrightarrow> \<forall>b\<in>set (chunked n ids). int (length b) \<le> n"
proof (induction ids rule: rev_induct)
  case Nil
  then show ?case by (simp add: chunked_Nil)
next
  case (snoc i ids)
  then show ?case unfolding chunked_snoc by (intro pushJob_bound) auto
qed

lemma in_grouped:
  "(q, m) \<in> set (groupedBatches jobs n) \<longleftrightarrow>
     q \<in> set (map queue jobs) \<and>
     m = map (\<lambda>s. (s, chunked n (map jobId (filter (\<lambda>j. queue j = q \<and> jobSet j = s) jobs))))
        (first_seen (map jobSet (filter (\<lambda>j. queue j = q) jobs)))"
  by (auto simp: groupedBatches_def)

lemma in_allBatches:
  "b \<in> set (allBatches chunks) \<longleftrightarrow> (\<exists>q m s bs. (q, m) \<in> set chunks \<and> (s, bs) \<in> set m \<and> b \<in> set bs)"
  by (force simp: allBatches_def)

lemma modify_Cons:
  "modify k d f (p # ps) = (if fst p = k then (k, f (snd p)) # ps else p # modify k d f ps)"
  by (cases p) (simp add: modify_def)

lemma sum_modify:
  fixes h :: "'v \<Rightarrow> 'b::comm_monoid_add"
  assumes "\<And>v. h (f v) = h v + c" and "h d = 0"
  shows "(\<Sum>p\<leftarrow>modify k d f al. h (snd p)) = (\<Sum>p\<leftarrow>al. h (snd p)) + c"
proof (induction al)
  case Nil
  from assms show ?case by (simp add: modify_Nil)
next
  case (Cons p ps)
  with assms(1) show ?case by (simp add: modify_Cons ac_simps)
qed

lemma mset_allBatches:
  "mset (concat (allBatches chunks)) = (\<Sum>p\<leftarrow>chunks. \<Sum>r\<leftarrow>snd p. mset (concat (snd r)))"
proof -
  have inner: "mset (concat (concat (map snd m))) = (\<Sum>r\<leftarrow>m. mset (concat (snd r)))" for m :: "Batches JsMap"
    by (induction m) auto
  show ?thesis
    by (induction chunks) (auto simp: allBatches_def inner)
qed

lemma mset_step:
  "mset (concat (allBatches (createJobBatches_step n R j))) =
     mset (concat (allBatches R)) + {#jobId j#}"
proof -
  have inner: "(\<Sum>r\<leftarrow>modify (jobSet j) [] (\<lambda>bs. pushJob n bs (jobId j)) m. mset (concat (snd r)))
      = (\<Sum>r\<leftarrow>m. mset (concat (snd r))) + {#jobId j#}" for m
    by (rule sum_modify) (simp_all add: pushJob_concat)
  show ?thesis
    unfolding mset_allBatches step_modify
    by (rule sum_modify) (simp_all add: inner)
qed

lemma mset_createJobBatches:
  "mset (concat (allBatches (createJobBatches jobs n))) = mset (map jobId jobs)"
proof (induction jobs rule: rev_induct)
  case Nil
  show ?case by (simp add: createJobBatches_def allBatches_def)
next
  case (snoc j js)
  then show ?case by (simp add: createJobBatches_def mset_step)
qed

lemma group_batches:
  assumes "(q, m) \<in> set (createJobBatches jobs n)" and "(s, bs) \<in> set m"
  shows "bs = chunked n (map jobId (filter (\<lambda>j. queue j = q \<and> jobSet j = s) jobs))"
  using assms by (auto simp: createJobBatches_grouped in_grouped)

lemma group_concat:
  assumes "(q, m) \<in> set (createJobBatches jobs n)" and "(s, bs) \<in> set m"
  shows "concat bs = map jobId (filter (\<lambda>j. queue j = q \<and> jobSet j = s) jobs)"
  using group_batches[OF assms] by (simp add: concat_chunked)

lemma group_keys:
  assumes "(q, m) \<in> set (createJobBatches jobs n)"
  shows "map fst m = first_seen (map jobSet (filter (\<lambda>j. queue j = q) jobs))"
  using assms by (auto simp: createJobBatches_grouped in_grouped comp_def)

lemma queue_keys: "map fst (createJobBatches jobs n) = first_seen (map queue jobs)"
  by (simp add: createJobBatches_grouped groupedBatches_def comp_def)

lemma batch_subseq_concat: "b \<in> set bs \<Longrightarrow> subseq b (concat bs)"
proof -
  assume "b \<in> set bs"
  then obtain us vs where "bs = us @ b # vs" by (auto simp: in_set_conv_decomp)
  then have "concat bs = concat us @ b @ concat vs" by simp
  then have "sublist b (concat bs)" unfolding sublist_def by blast
  then show ?thesis by (rule sublist_imp_subseq)
qed

lemma group_subseq:
  assumes "(q, m) \<in> set (createJobBatches jobs n)" and "(s, bs) \<in> set m" and "b \<in> set bs"
  shows "subseq b (map jobId jobs)"
proof -
  have "subseq b (map jobId (filter (\<lambda>j. queue j = q \<and> jobSet j = s) jobs))"
    using batch_subseq_concat[OF assms(3)] group_concat[OF assms(1,2)] by simp
  moreover have "subseq (map jobId (filter (\<lambda>j. queue j = q \<and> jobSet j = s) jobs)) (map jobId jobs)"
    by (intro subseq_map subseq_filter_left)
  ultimately show ?thesis by (rule subseq_order.trans)
qed

lemma group_member:
  assumes "(q, m) \<in> set (createJobBatches jobs n)" and "(s, bs) \<in> set m" and "b \<in> set bs"
    and "i \<in> set b"
  shows "\<exists>j\<in>set jobs. jobId j = i \<and> queue j = q \<and> jobSet j = s"
proof -
  from assms(3,4) have "i \<in> set (concat bs)" by auto
  then show ?thesis unfolding group_concat[OF assms(1,2)] by auto
qed

lemma batch_bound:
  assumes "1 \<le> n" and "b \<in> set (allBatches (createJobBatches jobs n))"
  shows "int (length b) \<le> n"
proof -
  from assms(2) obtain q m s bs where
    "(q, m) \<in> set (createJobBatches jobs n)" "(s, bs) \<in> set m" "b \<in> set bs"
    unfolding in_allBatches by blast
  then have "b \<in> set (chunked n (map jobId (filter (\<lambda>j. queue j = q \<and> jobSet j = s) jobs)))"
    using group_batches by blast
  with chunked_bound[OF assms(1)] show ?thesis by blast
qed

section \<open>Empty input\<close>

lemma createJobBatches_Nil: "createJobBatches [] batchSize = []"
  by (simp add: createJobBatches_def)

text \<open>
  C8: for the empty list of jobs \<open>createJobBatches\<close> returns a structure with no queue,
  hence no batch, and the mutation, in fake-data mode or not, makes no call and returns
  the response with empty \<open>successfulJobIds\<close> and empty \<open>failedJobIds\<close>.
\<close>

theorem C8_empty_input:
  "createJobBatches ([] :: Job list) batchSize = []
   \<and> allBatches (createJobBatches ([] :: Job list) batchSize) = []
   \<and> mutationFn config submitApi getErrorMessage ([] :: Job list) reason
       = (Inr \<lparr>successfulJobIds = [], failedJobIds = []\<rparr>, [])"
  by (simp add: createJobBatches_Nil allBatches_def mutationFn_def requestBodies_def)

section \<open>Claims about the batching\<close>

text \<open>
  C2: for every list of jobs and every batch size, the job IDs of all the batches, over
  all queues and job-sets, are as a multiset the job IDs of the input: none is lost, none
  is duplicated.
\<close>

theorem C2_batching_keeps_job_ids:
  "mset (concat (allBatches (createJobBatches jobs batchSize))) = mset (map jobId jobs)"
  by (rule mset_createJobBatches)

text \<open>
  C3, as amended: with the configured \<open>maxJobsPerRequest = 10000\<close> no batch has more than
  10000 job IDs, and for every batch size that is at least 1 no batch is longer than the
  batch size.
\<close>

theorem C3_batch_size_bound:
  "(\<forall>b\<in>set (allBatches (createJobBatches jobs maxJobsPerRequest)). length b \<le> 10000)
   \<and> (1 \<le> batchSize \<longrightarrow>
        (\<forall>b\<in>set (allBatches (createJobBatches jobs batchSize)). int (length b) \<le> batchSize))"
proof (intro conjI impI ballI)
  fix b assume "b \<in> set (allBatches (createJobBatches jobs maxJobsPerRequest))"
  then have "int (length b) \<le> maxJobsPerRequest"
    by (intro batch_bound) (simp_all add: maxJobsPerRequest_def)
  then show "length b \<le> 10000" by (simp add: maxJobsPerRequest_def)
next
  fix b assume "1 \<le> batchSize" "b \<in> set (allBatches (createJobBatches jobs batchSize))"
  then show "int (length b) \<le> batchSize" by (rule batch_bound)
qed

theorem C3_batch_size_bound_witness:
  "allBatches (createJobBatches
      [\<lparr>jobId = ''a'', queue = ''q1'', jobSet = ''s1''\<rparr>,
       \<lparr>jobId = ''b'', queue = ''q2'', jobSet = ''s1''\<rparr>,
       \<lparr>jobId = ''c'', queue = ''q1'', jobSet = ''s1''\<rparr>,
       \<lparr>jobId = ''d'', queue = ''q1'', jobSet = ''s2''\<rparr>,
       \<lparr>jobId = ''e'', queue = ''q1'', jobSet = ''s1''\<rparr>] 2)
     = [[''a'', ''c''], [''e''], [''d''], [''b'']]
   \<and> (1::int) \<le> 2
   \<and> list_all (\<lambda>b. int (length b) \<le> 2) (allBatches (createJobBatches
      [\<lparr>jobId = ''a'', queue = ''q1'', jobSet = ''s1''\<rparr>,
       \<lparr>jobId = ''b'', queue = ''q2'', jobSet = ''s1''\<rparr>,
       \<lparr>jobId = ''c'', queue = ''q1'', jobSet = ''s1''\<rparr>,
       \<lparr>jobId = ''d'', queue = ''q1'', jobSet = ''s2''\<rparr>,
       \<lparr>jobId = ''e'', queue = ''q1'', jobSet = ''s1''\<rparr>] 2))
   \<and> list_all (\<lambda>b. length b \<le> 10000) (allBatches (createJobBatches
      [\<lparr>jobId = ''a'', queue = ''q1'', jobSet = ''s1''\<rparr>,
       \<lparr>jobId = ''b'', queue = ''q2'', jobSet = ''s1''\<rparr>,
       \<lparr>jobId = ''c'', queue = ''q1'', jobSet = ''s1''\<rparr>,
       \<lparr>jobId = ''d'', queue = ''q1'', jobSet = ''s2''\<rparr>,
       \<lparr>jobId = ''e'', queue = ''q1'', jobSet = ''s1''\<rparr>] maxJobsPerRequest))"
proof -
  let ?jobs = "[\<lparr>jobId = ''a'', queue = ''q1'', jobSet = ''s1''\<rparr>,
       \<lparr>jobId = ''b'', queue = ''q2'', jobSet = ''s1''\<rparr>,
       \<lparr>jobId = ''c'', queue = ''q1'', jobSet = ''s1''\<rparr>,
       \<lparr>jobId = ''d'', queue = ''q1'', jobSet = ''s2''\<rparr>,
       \<lparr>jobId = ''e'', queue = ''q1'', jobSet = ''s1''\<rparr>]"
  have batches: "allBatches (createJobBatches ?jobs 2) = [[''a'', ''c''], [''e''], [''d''], [''b'']]"
    by (simp add: createJobBatches_def createJobBatches_step_def Map_has_def Map_get_def
        Map_set_def allBatches_def)
  have small: "list_all (\<lambda>b. int (length b) \<le> 2) (allBatches (createJobBatches ?jobs 2))"
    using C3_batch_size_bound [of ?jobs 2, THEN conjunct2] by (simp add: list_all_iff)
  have large: "list_all (\<lambda>b. length b \<le> 10000)
      (allBatches (createJobBatches ?jobs maxJobsPerRequest))"
    using C3_batch_size_bound [of ?jobs 2, THEN conjunct1] by (simp add: list_all_iff)
  from batches small large show ?thesis by simp
qed

text \<open>
  C3 as stated, for every batch size, fails at batch size 0: line 33 opens a batch with
  the first job of a group before any length is compared, so one job gives a batch of
  length 1.
\<close>

theorem C3_batch_size_zero_counterexample:
  "\<not> (\<forall>b\<in>set (allBatches (createJobBatches
          [\<lparr>jobId = ''a'', queue = ''q1'', jobSet = ''s1''\<rparr>] 0)). int (length b) \<le> 0)"
  by (simp add: createJobBatches_def createJobBatches_step_def Map_has_def Map_get_def
      Map_set_def allBatches_def)

text \<open>
  C6: the queues are kept in the order of first encounter in the input, the job-sets of a
  queue likewise, and the batches of a group, read in order, are the job IDs of the jobs
  of that group in input order; so every batch lists its job IDs in the relative order of
  the input.
\<close>

theorem C6_order_preserved:
  "map fst (createJobBatches jobs batchSize) = first_seen (map queue jobs)
   \<and> (\<forall>(q, m)\<in>set (createJobBatches jobs batchSize).
         map fst m = first_seen (map jobSet (filter (\<lambda>j. queue j = q) jobs))
         \<and> (\<forall>(s, bs)\<in>set m.
               concat bs = map jobId (filter (\<lambda>j. queue j = q \<and> jobSet j = s) jobs)
               \<and> (\<forall>b\<in>set bs. subseq b (map jobId jobs))))"
proof (intro conjI ballI)
  show "map fst (createJobBatches jobs batchSize) = first_seen (map queue jobs)"
    by (rule queue_keys)
next
  fix p assume p: "p \<in> set (createJobBatches jobs batchSize)"
  obtain q m where [simp]: "p = (q, m)" by (cases p)
  have keys: "map fst m = first_seen (map jobSet (filter (\<lambda>j. queue j = q) jobs))"
    using p by (simp add: group_keys)
  have groups: "concat bs = map jobId (filter (\<lambda>j. queue j = q \<and> jobSet j = s) jobs)
      \<and> (\<forall>b\<in>set bs. subseq b (map jobId jobs))" if "(s, bs) \<in> set m" for s bs
    using p that group_concat[of q m jobs batchSize s bs] group_subseq[of q m jobs batchSize s bs]
    by simp
  from keys groups show "case p of (q, m) \<Rightarrow>
      map fst m = first_seen (map jobSet (filter (\<lambda>j. queue j = q) jobs))
      \<and> (\<forall>(s, bs)\<in>set m.
            concat bs = map jobId (filter (\<lambda>j. queue j = q \<and> jobSet j = s) jobs)
            \<and> (\<forall>b\<in>set bs. subseq b (map jobId jobs)))"
    by auto
qed

theorem C6_order_preserved_witness:
  "createJobBatches
      [\<lparr>jobId = ''a'', queue = ''q1'', jobSet = ''s1''\<rparr>,
       \<lparr>jobId = ''b'', queue = ''q2'', jobSet = ''s1''\<rparr>,
       \<lparr>jobId = ''c'', queue = ''q1'', jobSet = ''s1''\<rparr>,
       \<lparr>jobId = ''d'', queue = ''q1'', jobSet = ''s2''\<rparr>,
       \<lparr>jobId = ''e'', queue = ''q1'', jobSet = ''s1''\<rparr>] 2
     = [(''q1'', [(''s1'', [[''a'', ''c''], [''e'']]), (''s2'', [[''d'']])]),
        (''q2'', [(''s1'', [[''b'']])])]
   \<and> first_seen (map queue
      [\<lparr>jobId = ''a'', queue = ''q1'', jobSet = ''s1''\<rparr>,
       \<lparr>jobId = ''b'', queue = ''q2'', jobSet = ''s1''\<rparr>,
       \<lparr>jobId = ''c'', queue = ''q1'', jobSet = ''s1''\<rparr>,
       \<lparr>jobId = ''d'', queue = ''q1'', jobSet = ''s2''\<rparr>,
       \<lparr>jobId = ''e'', queue = ''q1'', jobSet = ''s1''\<rparr>]) = [''q1'', ''q2'']
   \<and> subseq [''a'', ''c''] [''a'', ''b'', ''c'', ''d'', ''e'']
   \<and> subseq [''e''] [''a'', ''b'', ''c'', ''d'', ''e'']
   \<and> subseq [''d''] [''a'', ''b'', ''c'', ''d'', ''e'']
   \<and> subseq [''b''] [''a'', ''b'', ''c'', ''d'', ''e'']"
proof -
  let ?jobs = "[\<lparr>jobId = ''a'', queue = ''q1'', jobSet = ''s1''\<rparr>,
       \<lparr>jobId = ''b'', queue = ''q2'', jobSet = ''s1''\<rparr>,
       \<lparr>jobId = ''c'', queue = ''q1'', jobSet = ''s1''\<rparr>,
       \<lparr>jobId = ''d'', queue = ''q1'', jobSet = ''s2''\<rparr>,
       \<lparr>jobId = ''e'', queue = ''q1'', jobSet = ''s1''\<rparr>]"
  have chunks: "createJobBatches ?jobs 2
     = [(''q1'', [(''s1'', [[''a'', ''c''], [''e'']]), (''s2'', [[''d'']])]),
        (''q2'', [(''s1'', [[''b'']])])]"
    by (simp add: createJobBatches_def createJobBatches_step_def Map_has_def Map_get_def
        Map_set_def)
  have ids: "map jobId ?jobs = [''a'', ''b'', ''c'', ''d'', ''e'']"
    by simp
  have "first_seen (map queue ?jobs) = [''q1'', ''q2'']
     \<and> subseq [''a'', ''c''] (map jobId ?jobs) \<and> subseq [''e''] (map jobId ?jobs)
     \<and> subseq [''d''] (map jobId ?jobs) \<and> subseq [''b''] (map jobId ?jobs)"
    using C6_order_preserved [of ?jobs 2] unfolding chunks by simp
  with chunks ids show ?thesis by simp
qed

section \<open>Facts about the requests and the aggregation\<close>

lemma promisesOf_Nil: "promisesOf settled n [] = []"
  by (simp add: promisesOf_def)

lemma promisesOf_Cons:
  "promisesOf settled n (b # bs) =
     \<lparr>promise = settled n, jobIds = body_jobIds b\<rparr> # promisesOf settled (Suc n) bs"
  by (simp add: promisesOf_def upt_conv_Cons map_Suc_upt[symmetric] del: upt_Suc)

lemma issueRequests_returns:
  assumes "\<And>k. k < length bs \<Longrightarrow> submitApi (n + k) (bs ! k) = Returns (settled (n + k))"
  shows "issueRequests submitApi n bs = (Inr (promisesOf settled n bs), bs)"
  using assms
proof (induction bs arbitrary: n)
  case Nil
  show ?case by (simp add: promisesOf_Nil)
next
  case (Cons b bs)
  from Cons.prems[of 0] have head: "submitApi n b = Returns (settled n)" by simp
  have "submitApi (Suc n + k) (bs ! k) = Returns (settled (Suc n + k))" if "k < length bs" for k
    using Cons.prems[of "Suc k"] that by simp
  then have "issueRequests submitApi (Suc n) bs = (Inr (promisesOf settled (Suc n) bs), bs)"
    by (rule Cons.IH)
  with head show ?case by (simp add: promisesOf_Cons)
qed

lemma issueRequests_throws:
  assumes "k < length bs" and "submitApi (n + k) (bs ! k) = Throws e"
    and "\<And>i. i < k \<Longrightarrow> \<exists>p. submitApi (n + i) (bs ! i) = Returns p"
  shows "issueRequests submitApi n bs = (Inl e, take (Suc k) bs)"
  using assms
proof (induction bs arbitrary: n k)
  case Nil
  then show ?case by simp
next
  case (Cons b bs)
  show ?case
  proof (cases k)
    case 0
    with Cons.prems(2) show ?thesis by simp
  next
    case (Suc k')
    from Cons.prems(3)[of 0] Suc obtain p where head: "submitApi n b = Returns p" by auto
    have "issueRequests submitApi (Suc n) bs = (Inl e, take (Suc k') bs)"
    proof (rule Cons.IH)
      show "k' < length bs" using Cons.prems(1) Suc by simp
      show "submitApi (Suc n + k') (bs ! k') = Throws e" using Cons.prems(2) Suc by simp
      show "\<exists>p. submitApi (Suc n + i) (bs ! i) = Returns p" if "i < k'" for i
        using Cons.prems(3)[of "Suc i"] that Suc by simp
    qed
    with head Suc show ?thesis by simp
  qed
qed

lemma issueRequests_Inl:
  assumes "issueRequests submitApi n bs = (Inl e, calls)"
  shows "\<exists>k<length bs. submitApi (n + k) (bs ! k) = Throws e \<and> calls = take (Suc k) bs"
  using assms
proof (induction bs arbitrary: n calls)
  case Nil
  then show ?case by simp
next
  case (Cons b bs)
  show ?case
  proof (cases "submitApi n b")
    case (Throws e')
    with Cons.prems have "e' = e" "calls = [b]" by simp_all
    with Throws show ?thesis by (intro exI[of _ 0]) simp
  next
    case (Returns p)
    with Cons.prems obtain calls' where
      rest: "issueRequests submitApi (Suc n) bs = (Inl e, calls')" and calls: "calls = b # calls'"
      by (auto split: prod.splits sum.splits)
    from Cons.IH[OF rest] obtain k where
      "k < length bs" "submitApi (Suc n + k) (bs ! k) = Throws e" "calls' = take (Suc k) bs"
      by blast
    with calls show ?thesis by (intro exI[of _ "Suc k"]) simp
  qed
qed

lemma issueRequests_prefix: "prefix (snd (issueRequests submitApi n bs)) bs"
proof (induction bs arbitrary: n)
  case Nil
  show ?case by simp
next
  case (Cons b bs)
  obtain r calls where rest: "issueRequests submitApi (Suc n) bs = (r, calls)"
    by (cases "issueRequests submitApi (Suc n) bs")
  with Cons.IH[of "Suc n"] have "prefix calls bs" by simp
  with rest show ?case by (cases "submitApi n b"; cases r) simp_all
qed

lemma awaitResponses_lists:
  "awaitResponses getErrorMessage response ps =
     \<lparr>successfulJobIds = successfulJobIds response @ concat (map fulfilledIds ps),
      failedJobIds = failedJobIds response @ concat (map (rejectedIds getErrorMessage) ps)\<rparr>"
  by (induction ps arbitrary: response)
    (auto simp: fulfilledIds_def rejectedIds_def split: Promise.splits)

lemma mset_settled_one:
  "mset (fulfilledIds p) + mset (map fst (rejectedIds g p)) = mset (jobIds p)"
  by (cases "promise p") (simp_all add: fulfilledIds_def rejectedIds_def comp_def del: mset_map)

lemma mset_settled:
  "mset (concat (map fulfilledIds ps)) + mset (map fst (concat (map (rejectedIds g) ps)))
     = mset (concat (map jobIds ps))"
proof (induction ps)
  case Nil
  show ?case by simp
next
  case (Cons p ps)
  have "mset (concat (map fulfilledIds (p # ps)))
        + mset (map fst (concat (map (rejectedIds g) (p # ps))))
      = (mset (fulfilledIds p) + mset (map fst (rejectedIds g p)))
        + (mset (concat (map fulfilledIds ps))
           + mset (map fst (concat (map (rejectedIds g) ps))))"
    by (simp add: ac_simps)
  also have "\<dots> = mset (jobIds p) + mset (concat (map jobIds ps))"
    by (simp only: mset_settled_one Cons.IH)
  finally show ?case by simp
qed

lemma jobIds_promisesOf: "map jobIds (promisesOf settled n bs) = map body_jobIds bs"
  by (induction bs arbitrary: n) (simp_all add: promisesOf_Nil promisesOf_Cons)

lemma in_requestBodies:
  "r \<in> set (requestBodies reason chunks) \<longleftrightarrow>
     (\<exists>q m s bs b. (q, m) \<in> set chunks \<and> (s, bs) \<in> set m \<and> b \<in> set bs \<and>
        r = \<lparr>body_jobIds = b, body_queue = q, body_jobSetId = s, body_reason = reason\<rparr>)"
proof -
  have inner: "r \<in> set (concat (map (\<lambda>(js, batches).
        map (\<lambda>batch. \<lparr>body_jobIds = batch, body_queue = q, body_jobSetId = js,
                       body_reason = reason\<rparr>) batches) m)) \<longleftrightarrow>
      (\<exists>s bs b. (s, bs) \<in> set m \<and> b \<in> set bs \<and>
        r = \<lparr>body_jobIds = b, body_queue = q, body_jobSetId = s, body_reason = reason\<rparr>)"
    for q and m :: "Batches JsMap"
    by (induction m) auto
  have "r \<in> set (requestBodies reason chunks) \<longleftrightarrow>
      (\<exists>p\<in>set chunks. \<exists>s bs b. (s, bs) \<in> set (snd p) \<and> b \<in> set bs \<and>
        r = \<lparr>body_jobIds = b, body_queue = fst p, body_jobSetId = s, body_reason = reason\<rparr>)"
    unfolding requestBodies_def set_concat set_map
    by (simp only: UN_iff bex_simps image_iff split_beta inner)
  also have "\<dots> \<longleftrightarrow> (\<exists>q m s bs b. (q, m) \<in> set chunks \<and> (s, bs) \<in> set m \<and> b \<in> set bs \<and>
        r = \<lparr>body_jobIds = b, body_queue = q, body_jobSetId = s, body_reason = reason\<rparr>)"
    by (simp only: Bex_def split_paired_Ex fst_conv snd_conv) blast
  finally show ?thesis .
qed


lemma jobIds_requestBodies: "map body_jobIds (requestBodies reason chunks) = allBatches chunks"
proof -
  have inner: "map body_jobIds (concat (map (\<lambda>(js, batches).
        map (\<lambda>batch. \<lparr>body_jobIds = batch, body_queue = q, body_jobSetId = js,
                       body_reason = reason\<rparr>) batches) m)) = concat (map snd m)"
    for q and m :: "Batches JsMap"
    by (induction m) (auto simp: comp_def)
  show ?thesis
    by (induction chunks) (auto simp: requestBodies_def allBatches_def inner)
qed

lemma mutationFn_returns:
  assumes "\<not> fakeDataEnabled config"
    and "\<And>k. k < length (requestBodies reason (createJobBatches jobs maxJobsPerRequest)) \<Longrightarrow>
      submitApi k (requestBodies reason (createJobBatches jobs maxJobsPerRequest) ! k)
        = Returns (settled k)"
  shows "mutationFn config submitApi getErrorMessage jobs reason =
    (Inr \<lparr>successfulJobIds = concat (map fulfilledIds
             (promisesOf settled 0 (requestBodies reason (createJobBatches jobs maxJobsPerRequest)))),
          failedJobIds = concat (map (rejectedIds getErrorMessage)
             (promisesOf settled 0 (requestBodies reason (createJobBatches jobs maxJobsPerRequest))))\<rparr>,
     requestBodies reason (createJobBatches jobs maxJobsPerRequest))"
proof -
  have "issueRequests submitApi 0 (requestBodies reason (createJobBatches jobs maxJobsPerRequest))
    = (Inr (promisesOf settled 0 (requestBodies reason (createJobBatches jobs maxJobsPerRequest))),
       requestBodies reason (createJobBatches jobs maxJobsPerRequest))"
    by (rule issueRequests_returns) (simp add: assms(2))
  with assms(1) show ?thesis
    by (simp add: mutationFn_def awaitResponses_lists)
qed

lemma set_fulfilled:
  "set (concat (map fulfilledIds (promisesOf settled 0 bs))) =
     {i. \<exists>k<length bs. settled k = Fulfilled \<and> i \<in> set (body_jobIds (bs ! k))}"
  by (auto simp: promisesOf_def fulfilledIds_def split: Promise.splits)

lemma set_rejected:
  "set (concat (map (rejectedIds g) (promisesOf settled 0 bs))) =
     {(i, msg). \<exists>k<length bs. \<exists>e. settled k = Rejected e \<and> i \<in> set (body_jobIds (bs ! k))
        \<and> msg = g e}"
  by (auto simp: promisesOf_def rejectedIds_def split: Promise.splits) metis

lemma mutationFn_batchRequests:
  assumes "\<not> fakeDataEnabled config"
    and "\<And>k. k < length (batchRequests reason jobs) \<Longrightarrow>
      submitApi k (batchRequests reason jobs ! k) = Returns (settled k)"
  shows "mutationFn config submitApi getErrorMessage jobs reason =
    (Inr \<lparr>successfulJobIds =
            concat (map fulfilledIds (promisesOf settled 0 (batchRequests reason jobs))),
          failedJobIds =
            concat (map (rejectedIds getErrorMessage)
              (promisesOf settled 0 (batchRequests reason jobs)))\<rparr>,
     batchRequests reason jobs)"
  using assms unfolding batchRequests_def by (rule mutationFn_returns)

lemma mset_response:
  "mset (concat (map fulfilledIds (promisesOf settled 0 (batchRequests reason jobs))))
   + mset (map fst (concat (map (rejectedIds g) (promisesOf settled 0 (batchRequests reason jobs)))))
   = mset (map jobId jobs)"
  by (simp only: mset_settled jobIds_promisesOf batchRequests_def jobIds_requestBodies
      mset_createJobBatches)

lemma mutationFn_eval:
  "\<not> fakeDataEnabled config \<Longrightarrow>
   mutationFn config submitApi getErrorMessage jobs reason =
     (case issueRequests submitApi 0 (batchRequests reason jobs) of
        (Inl e, calls) \<Rightarrow> (Inl (getErrorMessage e), calls)
      | (Inr ps, calls) \<Rightarrow>
          (Inr (awaitResponses getErrorMessage \<lparr>successfulJobIds = [], failedJobIds = []\<rparr> ps),
           calls))"
  by (simp add: mutationFn_def batchRequests_def)

lemma all_fulfilled:
  "concat (map fulfilledIds (promisesOf (\<lambda>k. Fulfilled) n bs)) = concat (map body_jobIds bs)"
  by (induction bs arbitrary: n) (simp_all add: promisesOf_Nil promisesOf_Cons fulfilledIds_def)

lemma none_rejected:
  "concat (map (rejectedIds g) (promisesOf (\<lambda>k. Fulfilled) n bs)) = []"
  by (induction bs arbitrary: n) (simp_all add: promisesOf_Nil promisesOf_Cons rejectedIds_def)

lemma jobIds_batchRequests:
  "map body_jobIds (batchRequests reason jobs) = allBatches (createJobBatches jobs maxJobsPerRequest)"
  by (simp add: batchRequests_def jobIds_requestBodies)

lemma issueRequests_calls:
  assumes "\<And>k. k < length bs \<Longrightarrow> \<exists>p. submitApi (n + k) (bs ! k) = Returns p"
  shows "snd (issueRequests submitApi n bs) = bs"
  using assms
proof (induction bs arbitrary: n)
  case Nil
  show ?case by simp
next
  case (Cons b bs)
  from Cons.prems[of 0] obtain p where head: "submitApi n b = Returns p" by auto
  have "\<exists>p. submitApi (Suc n + k) (bs ! k) = Returns p" if "k < length bs" for k
    using Cons.prems[of "Suc k"] that by simp
  then have rest: "snd (issueRequests submitApi (Suc n) bs) = bs" by (rule Cons.IH)
  obtain res calls where run: "issueRequests submitApi (Suc n) bs = (res, calls)"
    by (cases "issueRequests submitApi (Suc n) bs")
  with rest have "calls = bs" by simp
  with head run show ?case by (cases res) simp_all
qed

lemma calls_subset:
  "set (snd (mutationFn config submitApi getErrorMessage jobs reason))
     \<subseteq> set (batchRequests reason jobs)"
proof (cases "fakeDataEnabled config")
  case True
  then show ?thesis by (simp add: mutationFn_def)
next
  case False
  have "snd (mutationFn config submitApi getErrorMessage jobs reason)
      = snd (issueRequests submitApi 0 (batchRequests reason jobs))"
    unfolding mutationFn_eval[OF False] by (simp split: prod.splits sum.splits)
  then show ?thesis
    using issueRequests_prefix[of submitApi 0 "batchRequests reason jobs"]
    by (simp add: set_mono_prefix)
qed

lemma calls_all:
  assumes "\<not> fakeDataEnabled config"
    and "\<And>k. k < length (batchRequests reason jobs) \<Longrightarrow>
      \<exists>p. submitApi k (batchRequests reason jobs ! k) = Returns p"
  shows "snd (mutationFn config submitApi getErrorMessage jobs reason) = batchRequests reason jobs"
proof -
  have "snd (mutationFn config submitApi getErrorMessage jobs reason)
      = snd (issueRequests submitApi 0 (batchRequests reason jobs))"
    unfolding mutationFn_eval[OF assms(1)] by (simp split: prod.splits sum.splits)
  also have "\<dots> = batchRequests reason jobs"
    by (rule issueRequests_calls) (simp add: assms(2))
  finally show ?thesis .
qed

lemma example_requests:
  "batchRequests ''why''
     [\<lparr>jobId = ''a'', queue = ''q1'', jobSet = ''s1''\<rparr>,
      \<lparr>jobId = ''b'', queue = ''q2'', jobSet = ''s1''\<rparr>,
      \<lparr>jobId = ''c'', queue = ''q2'', jobSet = ''s1''\<rparr>,
      \<lparr>jobId = ''d'', queue = ''q1'', jobSet = ''s1''\<rparr>]
   = [\<lparr>body_jobIds = [''a'', ''d''], body_queue = ''q1'', body_jobSetId = ''s1'',
         body_reason = ''why''\<rparr>,
       \<lparr>body_jobIds = [''b'', ''c''], body_queue = ''q2'', body_jobSetId = ''s1'',
         body_reason = ''why''\<rparr>]"
  by (simp add: batchRequests_def requestBodies_def createJobBatches_def
        createJobBatches_step_def Map_has_def Map_get_def Map_set_def maxJobsPerRequest_def)

section \<open>Claims about the mutation\<close>

text \<open>
  C7: every job ID of a batch is the ID of an input job whose queue and job-set are the
  keys the batch is stored under. Every call made by the mutation carries the reason
  given to the mutation and the job IDs of one batch together with the queue and the
  job-set that batch is stored under. When fake-data mode is off and no call throws, the
  calls are the requests of all the batches, one call for each batch, in the order of the
  loops.
\<close>

theorem C7_requests_carry_their_batch:
  "(\<forall>(q, m)\<in>set (createJobBatches jobs batchSize). \<forall>(s, bs)\<in>set m. \<forall>b\<in>set bs. \<forall>i\<in>set b.
      \<exists>j\<in>set jobs. jobId j = i \<and> queue j = q \<and> jobSet j = s)
   \<and> (\<forall>r\<in>set (snd (mutationFn config submitApi getErrorMessage jobs reason)).
        body_reason r = reason
        \<and> (\<exists>m bs. (body_queue r, m) \<in> set (createJobBatches jobs maxJobsPerRequest)
              \<and> (body_jobSetId r, bs) \<in> set m \<and> body_jobIds r \<in> set bs)
        \<and> (\<forall>i\<in>set (body_jobIds r).
              \<exists>j\<in>set jobs. jobId j = i \<and> queue j = body_queue r \<and> jobSet j = body_jobSetId r))
   \<and> (\<not> fakeDataEnabled config
        \<and> (\<forall>k<length (batchRequests reason jobs).
              \<exists>p. submitApi k (batchRequests reason jobs ! k) = Returns p)
        \<longrightarrow> snd (mutationFn config submitApi getErrorMessage jobs reason)
              = batchRequests reason jobs
            \<and> map body_jobIds (batchRequests reason jobs)
              = allBatches (createJobBatches jobs maxJobsPerRequest))"
proof (intro conjI ballI impI)
  fix p assume p: "p \<in> set (createJobBatches jobs batchSize)"
  obtain q m where [simp]: "p = (q, m)" by (cases p)
  have "\<exists>j\<in>set jobs. jobId j = i \<and> queue j = q \<and> jobSet j = s"
    if "(s, bs) \<in> set m" "b \<in> set bs" "i \<in> set b" for s bs b i
    using p that group_member[of q m jobs batchSize s bs b i] by simp
  then show "case p of (q, m) \<Rightarrow> \<forall>(s, bs)\<in>set m. \<forall>b\<in>set bs. \<forall>i\<in>set b.
      \<exists>j\<in>set jobs. jobId j = i \<and> queue j = q \<and> jobSet j = s"
    by auto
next
  fix r assume "r \<in> set (snd (mutationFn config submitApi getErrorMessage jobs reason))"
  with calls_subset have "r \<in> set (batchRequests reason jobs)" by blast
  then obtain q m s bs b where
    group: "(q, m) \<in> set (createJobBatches jobs maxJobsPerRequest)" "(s, bs) \<in> set m"
      "b \<in> set bs"
    and r: "r = \<lparr>body_jobIds = b, body_queue = q, body_jobSetId = s, body_reason = reason\<rparr>"
    unfolding batchRequests_def in_requestBodies by blast
  show "body_reason r = reason" by (simp add: r)
  show "\<exists>m bs. (body_queue r, m) \<in> set (createJobBatches jobs maxJobsPerRequest)
      \<and> (body_jobSetId r, bs) \<in> set m \<and> body_jobIds r \<in> set bs"
    using group by (auto simp: r)
  fix i assume "i \<in> set (body_jobIds r)"
  then have "i \<in> set b" by (simp add: r)
  from group_member[OF group this]
  show "\<exists>j\<in>set jobs. jobId j = i \<and> queue j = body_queue r \<and> jobSet j = body_jobSetId r"
    by (simp add: r)
next
  assume "\<not> fakeDataEnabled config
    \<and> (\<forall>k<length (batchRequests reason jobs).
          \<exists>p. submitApi k (batchRequests reason jobs ! k) = Returns p)"
  then show "snd (mutationFn config submitApi getErrorMessage jobs reason)
      = batchRequests reason jobs"
    by (intro calls_all) auto
next
  show "map body_jobIds (batchRequests reason jobs)
      = allBatches (createJobBatches jobs maxJobsPerRequest)"
    by (rule jobIds_batchRequests)
qed

theorem C7_requests_carry_their_batch_witness:
  "snd (mutationFn \<lparr>fakeDataEnabled = False\<rparr>
     (\<lambda>k b. if k = 0 then Returns Fulfilled else Returns (Rejected ''boom''))
     (\<lambda>e. ''error: '' @ e)
     [\<lparr>jobId = ''a'', queue = ''q1'', jobSet = ''s1''\<rparr>,
      \<lparr>jobId = ''b'', queue = ''q2'', jobSet = ''s1''\<rparr>,
      \<lparr>jobId = ''c'', queue = ''q2'', jobSet = ''s1''\<rparr>,
      \<lparr>jobId = ''d'', queue = ''q1'', jobSet = ''s1''\<rparr>] ''why'')
   = [\<lparr>body_jobIds = [''a'', ''d''], body_queue = ''q1'', body_jobSetId = ''s1'',
         body_reason = ''why''\<rparr>,
       \<lparr>body_jobIds = [''b'', ''c''], body_queue = ''q2'', body_jobSetId = ''s1'',
         body_reason = ''why''\<rparr>]
   \<and> allBatches (createJobBatches
     [\<lparr>jobId = ''a'', queue = ''q1'', jobSet = ''s1''\<rparr>,
      \<lparr>jobId = ''b'', queue = ''q2'', jobSet = ''s1''\<rparr>,
      \<lparr>jobId = ''c'', queue = ''q2'', jobSet = ''s1''\<rparr>,
      \<lparr>jobId = ''d'', queue = ''q1'', jobSet = ''s1''\<rparr>] maxJobsPerRequest) = [[''a'', ''d''], [''b'', ''c'']]"
proof -
  let ?config = "\<lparr>fakeDataEnabled = False\<rparr>"
  let ?api = "\<lambda>(k::nat) (b::PreemptJobsBody).
    if k = 0 then Returns Fulfilled else Returns (Rejected ''boom'')"
  let ?msg = "\<lambda>e. ''error: '' @ e"
  let ?jobs = "[\<lparr>jobId = ''a'', queue = ''q1'', jobSet = ''s1''\<rparr>,
      \<lparr>jobId = ''b'', queue = ''q2'', jobSet = ''s1''\<rparr>,
      \<lparr>jobId = ''c'', queue = ''q2'', jobSet = ''s1''\<rparr>,
      \<lparr>jobId = ''d'', queue = ''q1'', jobSet = ''s1''\<rparr>]"
  have returns: "\<not> fakeDataEnabled ?config
    \<and> (\<forall>k<length (batchRequests ''why'' ?jobs).
          \<exists>p. ?api k (batchRequests ''why'' ?jobs ! k) = Returns p)"
    by simp
  from C7_requests_carry_their_batch [of ?jobs 2 ?config ?api ?msg "''why''"]
  have "\<not> fakeDataEnabled ?config
        \<and> (\<forall>k<length (batchRequests ''why'' ?jobs).
              \<exists>p. ?api k (batchRequests ''why'' ?jobs ! k) = Returns p)
        \<longrightarrow> snd (mutationFn ?config ?api ?msg ?jobs ''why'') = batchRequests ''why'' ?jobs
            \<and> map body_jobIds (batchRequests ''why'' ?jobs)
              = allBatches (createJobBatches ?jobs maxJobsPerRequest)"
    by (elim conjE)
  with returns have "snd (mutationFn ?config ?api ?msg ?jobs ''why'') = batchRequests ''why'' ?jobs"
    and "map body_jobIds (batchRequests ''why'' ?jobs)
      = allBatches (createJobBatches ?jobs maxJobsPerRequest)"
    by blast+
  then show ?thesis unfolding example_requests by simp
qed

text \<open>
  C4, as amended: with fake-data mode off and no call throwing, that is with no top-level
  error, the mutation returns a response and has made the call of every batch. Every job ID of a batch whose promise is rejected is
  in \<open>failedJobIds\<close>, paired with the message of that rejection; every entry of
  \<open>failedJobIds\<close> is a job ID of a rejected batch with the message of that batch; and the
  batches whose promises are fulfilled, before or after a rejected one, are reported in
  \<open>successfulJobIds\<close>, which holds nothing else.
\<close>

theorem C4_failed_batches:
  assumes "\<not> fakeDataEnabled config"
    and "\<And>k. k < length (batchRequests reason jobs) \<Longrightarrow>
      submitApi k (batchRequests reason jobs ! k) = Returns (settled k)"
  shows "\<exists>response.
    mutationFn config submitApi getErrorMessage jobs reason
      = (Inr response, batchRequests reason jobs)
    \<and> (\<forall>k<length (batchRequests reason jobs). \<forall>e. settled k = Rejected e \<longrightarrow>
          (\<forall>i\<in>set (body_jobIds (batchRequests reason jobs ! k)).
             (i, getErrorMessage e) \<in> set (failedJobIds response)))
    \<and> (\<forall>(i, msg)\<in>set (failedJobIds response).
          \<exists>k<length (batchRequests reason jobs). \<exists>e. settled k = Rejected e
            \<and> i \<in> set (body_jobIds (batchRequests reason jobs ! k)) \<and> msg = getErrorMessage e)
    \<and> (\<forall>k<length (batchRequests reason jobs). settled k = Fulfilled \<longrightarrow>
          set (body_jobIds (batchRequests reason jobs ! k)) \<subseteq> set (successfulJobIds response))
    \<and> (\<forall>i\<in>set (successfulJobIds response).
          \<exists>k<length (batchRequests reason jobs). settled k = Fulfilled
            \<and> i \<in> set (body_jobIds (batchRequests reason jobs ! k)))"
proof -
  let ?B = "batchRequests reason jobs"
  let ?r = "\<lparr>successfulJobIds = concat (map fulfilledIds (promisesOf settled 0 ?B)),
             failedJobIds = concat (map (rejectedIds getErrorMessage) (promisesOf settled 0 ?B))\<rparr>"
  have run: "mutationFn config submitApi getErrorMessage jobs reason = (Inr ?r, ?B)"
    using assms by (rule mutationFn_batchRequests)
  have rejected: "\<forall>k<length ?B. \<forall>e. settled k = Rejected e \<longrightarrow>
      (\<forall>i\<in>set (body_jobIds (?B ! k)). (i, getErrorMessage e) \<in> set (failedJobIds ?r))"
    unfolding UpdateJobsResponse.select_convs set_rejected by auto
  have only_rejected: "\<forall>(i, msg)\<in>set (failedJobIds ?r).
      \<exists>k<length ?B. \<exists>e. settled k = Rejected e \<and> i \<in> set (body_jobIds (?B ! k))
        \<and> msg = getErrorMessage e"
    unfolding UpdateJobsResponse.select_convs set_rejected by auto
  have fulfilled: "\<forall>k<length ?B. settled k = Fulfilled \<longrightarrow>
      set (body_jobIds (?B ! k)) \<subseteq> set (successfulJobIds ?r)"
    unfolding UpdateJobsResponse.select_convs set_fulfilled by auto
  have only_fulfilled: "\<forall>i\<in>set (successfulJobIds ?r).
      \<exists>k<length ?B. settled k = Fulfilled \<and> i \<in> set (body_jobIds (?B ! k))"
    unfolding UpdateJobsResponse.select_convs set_fulfilled by auto
  from run rejected only_rejected fulfilled only_fulfilled show ?thesis
    by (intro exI[of _ ?r] conjI)
qed

theorem C4_failed_batches_witness:
  "mutationFn \<lparr>fakeDataEnabled = False\<rparr>
     (\<lambda>k b. if k = 0 then Returns Fulfilled else Returns (Rejected ''boom''))
     (\<lambda>e. ''error: '' @ e)
     [\<lparr>jobId = ''a'', queue = ''q1'', jobSet = ''s1''\<rparr>,
      \<lparr>jobId = ''b'', queue = ''q2'', jobSet = ''s1''\<rparr>,
      \<lparr>jobId = ''c'', queue = ''q2'', jobSet = ''s1''\<rparr>,
      \<lparr>jobId = ''d'', queue = ''q1'', jobSet = ''s1''\<rparr>] ''why''
   = (Inr \<lparr>successfulJobIds = [''a'', ''d''],
             failedJobIds = [(''b'', ''error: boom''), (''c'', ''error: boom'')]\<rparr>,
      [\<lparr>body_jobIds = [''a'', ''d''], body_queue = ''q1'', body_jobSetId = ''s1'',
         body_reason = ''why''\<rparr>,
       \<lparr>body_jobIds = [''b'', ''c''], body_queue = ''q2'', body_jobSetId = ''s1'',
         body_reason = ''why''\<rparr>])"
proof -
  let ?config = "\<lparr>fakeDataEnabled = False\<rparr>"
  let ?api = "\<lambda>(k::nat) (b::PreemptJobsBody).
    if k = 0 then Returns Fulfilled else Returns (Rejected ''boom'')"
  let ?settled = "\<lambda>k::nat. if k = 0 then Fulfilled else Rejected ''boom''"
  let ?msg = "\<lambda>e. ''error: '' @ e"
  let ?jobs = "[\<lparr>jobId = ''a'', queue = ''q1'', jobSet = ''s1''\<rparr>,
      \<lparr>jobId = ''b'', queue = ''q2'', jobSet = ''s1''\<rparr>,
      \<lparr>jobId = ''c'', queue = ''q2'', jobSet = ''s1''\<rparr>,
      \<lparr>jobId = ''d'', queue = ''q1'', jobSet = ''s1''\<rparr>]"
  have bodies: "batchRequests ''why'' ?jobs =
      [\<lparr>body_jobIds = [''a'', ''d''], body_queue = ''q1'', body_jobSetId = ''s1'',
         body_reason = ''why''\<rparr>,
       \<lparr>body_jobIds = [''b'', ''c''], body_queue = ''q2'', body_jobSetId = ''s1'',
         body_reason = ''why''\<rparr>]"
    by (simp add: batchRequests_def requestBodies_def createJobBatches_def
        createJobBatches_step_def Map_has_def Map_get_def Map_set_def maxJobsPerRequest_def)
  have fake: "\<not> fakeDataEnabled ?config" by simp
  have calls: "?api k (batchRequests ''why'' ?jobs ! k) = Returns (?settled k)"
    if "k < length (batchRequests ''why'' ?jobs)" for k
    by simp
  have eval: "mutationFn ?config ?api ?msg ?jobs ''why''
      = (Inr \<lparr>successfulJobIds = [''a'', ''d''],
             failedJobIds = [(''b'', ''error: boom''), (''c'', ''error: boom'')]\<rparr>,
         batchRequests ''why'' ?jobs)"
    unfolding mutationFn_eval[OF fake] bodies by (simp add: Let_def)
  from C4_failed_batches [where submitApi = ?api and settled = ?settled
      and getErrorMessage = ?msg, OF fake calls]
  obtain response where
    run: "mutationFn ?config ?api ?msg ?jobs ''why'' = (Inr response, batchRequests ''why'' ?jobs)"
    by blast
  with eval have "response = \<lparr>successfulJobIds = [''a'', ''d''],
      failedJobIds = [(''b'', ''error: boom''), (''c'', ''error: boom'')]\<rparr>"
    by simp
  with run show ?thesis unfolding bodies by simp
qed

text \<open>
  C4 as stated, for every run, fails when a call throws after the promise of an earlier
  batch was rejected: the error leaves the loops of lines 65 to 81 before any promise is
  awaited, the mutation throws the message of that error, and the rejected batch is
  reported in no response.
\<close>

theorem C4_throwing_call_counterexample:
  "mutationFn \<lparr>fakeDataEnabled = False\<rparr>
     (\<lambda>k b. if k = 0 then Returns (Rejected ''boom'') else Throws ''down'')
     (\<lambda>e. ''error: '' @ e)
     [\<lparr>jobId = ''a'', queue = ''q1'', jobSet = ''s1''\<rparr>,
      \<lparr>jobId = ''b'', queue = ''q2'', jobSet = ''s1''\<rparr>] ''why''
   = (Inl ''error: down'',
      [\<lparr>body_jobIds = [''a''], body_queue = ''q1'', body_jobSetId = ''s1'',
         body_reason = ''why''\<rparr>,
       \<lparr>body_jobIds = [''b''], body_queue = ''q2'', body_jobSetId = ''s1'',
         body_reason = ''why''\<rparr>])"
  by (simp add: mutationFn_def Let_def requestBodies_def createJobBatches_def
      createJobBatches_step_def Map_has_def Map_get_def Map_set_def maxJobsPerRequest_def)

text \<open>
  C1, as amended: with fake-data mode off and no call throwing, the two lists of the
  response hold together, counted with multiplicity, exactly the submitted job IDs: every
  submitted job ID is in one of the lists and nothing else is. When the submitted job IDs
  are pairwise distinct, no job ID is in both lists and none is twice in a list.
\<close>

theorem C1_response_partitions_job_ids:
  assumes "\<not> fakeDataEnabled config"
    and "\<And>k. k < length (batchRequests reason jobs) \<Longrightarrow>
      submitApi k (batchRequests reason jobs ! k) = Returns (settled k)"
  shows "\<exists>response.
    fst (mutationFn config submitApi getErrorMessage jobs reason) = Inr response
    \<and> mset (successfulJobIds response) + mset (map fst (failedJobIds response))
        = mset (map jobId jobs)
    \<and> set (successfulJobIds response) \<union> fst ` set (failedJobIds response) = jobId ` set jobs
    \<and> (distinct (map jobId jobs) \<longrightarrow>
          set (successfulJobIds response) \<inter> fst ` set (failedJobIds response) = {}
          \<and> distinct (successfulJobIds response)
          \<and> distinct (map fst (failedJobIds response)))"
proof -
  let ?B = "batchRequests reason jobs"
  let ?r = "\<lparr>successfulJobIds = concat (map fulfilledIds (promisesOf settled 0 ?B)),
             failedJobIds = concat (map (rejectedIds getErrorMessage) (promisesOf settled 0 ?B))\<rparr>"
  have run: "fst (mutationFn config submitApi getErrorMessage jobs reason) = Inr ?r"
    using mutationFn_batchRequests[where submitApi = submitApi and settled = settled, OF assms]
    by simp
  have parts: "mset (successfulJobIds ?r @ map fst (failedJobIds ?r)) = mset (map jobId jobs)"
    using mset_response[of settled reason jobs getErrorMessage]
    by (simp only: UpdateJobsResponse.select_convs mset_append)
  then have sets: "set (successfulJobIds ?r @ map fst (failedJobIds ?r)) = set (map jobId jobs)"
    by (rule mset_eq_setD)
  have dist: "distinct (successfulJobIds ?r @ map fst (failedJobIds ?r))"
    if "distinct (map jobId jobs)"
    using that mset_eq_imp_distinct_iff[OF parts] by simp
  have "mset (successfulJobIds ?r) + mset (map fst (failedJobIds ?r)) = mset (map jobId jobs)"
    using parts by (simp only: mset_append)
  moreover have "set (successfulJobIds ?r) \<union> fst ` set (failedJobIds ?r) = jobId ` set jobs"
    using sets by (simp only: set_append set_map)
  moreover have "distinct (map jobId jobs) \<longrightarrow>
      set (successfulJobIds ?r) \<inter> fst ` set (failedJobIds ?r) = {}
      \<and> distinct (successfulJobIds ?r) \<and> distinct (map fst (failedJobIds ?r))"
    using dist by (auto simp only: distinct_append set_map)
  ultimately show ?thesis using run by (intro exI[of _ ?r] conjI)
qed

theorem C1_response_partitions_job_ids_witness:
  "fst (mutationFn \<lparr>fakeDataEnabled = False\<rparr>
     (\<lambda>k b. if k = 0 then Returns Fulfilled else Returns (Rejected ''boom''))
     (\<lambda>e. ''error: '' @ e)
     [\<lparr>jobId = ''a'', queue = ''q1'', jobSet = ''s1''\<rparr>,
      \<lparr>jobId = ''b'', queue = ''q2'', jobSet = ''s1''\<rparr>,
      \<lparr>jobId = ''c'', queue = ''q2'', jobSet = ''s1''\<rparr>,
      \<lparr>jobId = ''d'', queue = ''q1'', jobSet = ''s1''\<rparr>] ''why'')
   = Inr \<lparr>successfulJobIds = [''a'', ''d''],
            failedJobIds = [(''b'', ''error: boom''), (''c'', ''error: boom'')]\<rparr>
   \<and> distinct [''a'', ''b'', ''c'', ''d'']
   \<and> set [''a'', ''d''] \<inter> fst ` set [(''b'', ''error: boom''), (''c'', ''error: boom'')] = {}
   \<and> set [''a'', ''d''] \<union> fst ` set [(''b'', ''error: boom''), (''c'', ''error: boom'')]
       = set [''a'', ''b'', ''c'', ''d'']"
proof -
  let ?config = "\<lparr>fakeDataEnabled = False\<rparr>"
  let ?api = "\<lambda>(k::nat) (b::PreemptJobsBody).
    if k = 0 then Returns Fulfilled else Returns (Rejected ''boom'')"
  let ?settled = "\<lambda>k::nat. if k = 0 then Fulfilled else Rejected ''boom''"
  let ?msg = "\<lambda>e. ''error: '' @ e"
  let ?jobs = "[\<lparr>jobId = ''a'', queue = ''q1'', jobSet = ''s1''\<rparr>,
      \<lparr>jobId = ''b'', queue = ''q2'', jobSet = ''s1''\<rparr>,
      \<lparr>jobId = ''c'', queue = ''q2'', jobSet = ''s1''\<rparr>,
      \<lparr>jobId = ''d'', queue = ''q1'', jobSet = ''s1''\<rparr>]"
  have fake: "\<not> fakeDataEnabled ?config" by simp
  have calls: "?api k (batchRequests ''why'' ?jobs ! k) = Returns (?settled k)"
    if "k < length (batchRequests ''why'' ?jobs)" for k
    by simp
  have eval: "fst (mutationFn ?config ?api ?msg ?jobs ''why'')
      = Inr \<lparr>successfulJobIds = [''a'', ''d''],
             failedJobIds = [(''b'', ''error: boom''), (''c'', ''error: boom'')]\<rparr>"
    unfolding mutationFn_eval[OF fake] example_requests by (simp add: Let_def)
  from C1_response_partitions_job_ids [where submitApi = ?api and settled = ?settled
      and getErrorMessage = ?msg, OF fake calls]
  obtain response where
    run: "fst (mutationFn ?config ?api ?msg ?jobs ''why'') = Inr response"
    and disjoint: "distinct (map jobId ?jobs) \<longrightarrow>
      set (successfulJobIds response) \<inter> fst ` set (failedJobIds response) = {}"
    and cover: "set (successfulJobIds response) \<union> fst ` set (failedJobIds response)
      = jobId ` set ?jobs"
    by blast
  from run eval have response: "response = \<lparr>successfulJobIds = [''a'', ''d''],
      failedJobIds = [(''b'', ''error: boom''), (''c'', ''error: boom'')]\<rparr>"
    by simp
  have "distinct [''a'', ''b'', ''c'', ''d'']" by simp
  moreover from disjoint have
    "set [''a'', ''d''] \<inter> fst ` set [(''b'', ''error: boom''), (''c'', ''error: boom'')] = {}"
    unfolding response by simp
  moreover from cover have
    "set [''a'', ''d''] \<union> fst ` set [(''b'', ''error: boom''), (''c'', ''error: boom'')]
       = set [''a'', ''b'', ''c'', ''d'']"
    unfolding response by simp
  ultimately show ?thesis using run response by simp
qed

text \<open>
  C1 as stated, for every list of jobs, fails when a job ID is submitted twice: the two
  occurrences can fall into two batches, one fulfilled and one rejected, and the job ID is
  then in both lists.
\<close>

theorem C1_duplicate_job_id_counterexample:
  "fst (mutationFn \<lparr>fakeDataEnabled = False\<rparr>
     (\<lambda>k b. if k = 0 then Returns Fulfilled else Returns (Rejected ''boom''))
     (\<lambda>e. ''error: '' @ e)
     [\<lparr>jobId = ''a'', queue = ''q1'', jobSet = ''s1''\<rparr>,
      \<lparr>jobId = ''a'', queue = ''q2'', jobSet = ''s1''\<rparr>] ''why'')
   = Inr \<lparr>successfulJobIds = [''a''], failedJobIds = [(''a'', ''error: boom'')]\<rparr>
   \<and> ''a'' \<in> set [''a''] \<inter> fst ` set [(''a'', ''error: boom'')]"
  by (simp add: mutationFn_def Let_def requestBodies_def createJobBatches_def
      createJobBatches_step_def Map_has_def Map_get_def Map_set_def maxJobsPerRequest_def)

text \<open>
  C5, as amended: with fake-data mode off, when every call returns a promise that is
  fulfilled, \<open>failedJobIds\<close> is empty and \<open>successfulJobIds\<close> lists the job IDs of all the
  batches: every job ID is in it as many times as it is in the input, hence exactly once
  when the submitted job IDs are pairwise distinct.
\<close>

theorem C5_all_success:
  assumes "\<not> fakeDataEnabled config"
    and "\<And>k. k < length (batchRequests reason jobs) \<Longrightarrow>
      submitApi k (batchRequests reason jobs ! k) = Returns Fulfilled"
  shows "\<exists>response.
    mutationFn config submitApi getErrorMessage jobs reason
      = (Inr response, batchRequests reason jobs)
    \<and> failedJobIds response = []
    \<and> successfulJobIds response = concat (allBatches (createJobBatches jobs maxJobsPerRequest))
    \<and> (\<forall>i. count_list (successfulJobIds response) i = count_list (map jobId jobs) i)
    \<and> (distinct (map jobId jobs) \<longrightarrow>
          (\<forall>i\<in>jobId ` set jobs. count_list (successfulJobIds response) i = 1))"
proof -
  let ?ids = "concat (allBatches (createJobBatches jobs maxJobsPerRequest))"
  let ?r = "\<lparr>successfulJobIds = ?ids, failedJobIds = []\<rparr>"
  have run: "mutationFn config submitApi getErrorMessage jobs reason
      = (Inr ?r, batchRequests reason jobs)"
    using mutationFn_batchRequests[where submitApi = submitApi and settled = "\<lambda>k. Fulfilled",
        OF assms]
    by (simp only: all_fulfilled none_rejected jobIds_batchRequests)
  have same: "mset ?ids = mset (map jobId jobs)"
    by (rule mset_createJobBatches)
  have counts: "count_list ?ids i = count_list (map jobId jobs) i" for i
    using same by (metis count_mset)
  have once: "count_list ?ids i = 1" if "distinct (map jobId jobs)" "i \<in> jobId ` set jobs" for i
  proof -
    from that have "count (mset (map jobId jobs)) i = 1"
      by (simp only: distinct_count_atmost_1 set_map if_True)
    then show ?thesis unfolding counts by (simp only: count_mset)
  qed
  from run counts once show ?thesis
    by (intro exI[of _ ?r]) simp
qed

theorem C5_all_success_witness:
  "mutationFn \<lparr>fakeDataEnabled = False\<rparr> (\<lambda>k b. Returns Fulfilled) (\<lambda>e. ''error: '' @ e)
     [\<lparr>jobId = ''a'', queue = ''q1'', jobSet = ''s1''\<rparr>,
      \<lparr>jobId = ''b'', queue = ''q2'', jobSet = ''s1''\<rparr>,
      \<lparr>jobId = ''c'', queue = ''q2'', jobSet = ''s1''\<rparr>,
      \<lparr>jobId = ''d'', queue = ''q1'', jobSet = ''s1''\<rparr>] ''why''
   = (Inr \<lparr>successfulJobIds = [''a'', ''d'', ''b'', ''c''], failedJobIds = []\<rparr>,
      [\<lparr>body_jobIds = [''a'', ''d''], body_queue = ''q1'', body_jobSetId = ''s1'',
         body_reason = ''why''\<rparr>,
       \<lparr>body_jobIds = [''b'', ''c''], body_queue = ''q2'', body_jobSetId = ''s1'',
         body_reason = ''why''\<rparr>])
   \<and> distinct [''a'', ''b'', ''c'', ''d'']
   \<and> count_list [''a'', ''d'', ''b'', ''c''] ''c'' = 1"
proof -
  let ?config = "\<lparr>fakeDataEnabled = False\<rparr>"
  let ?api = "\<lambda>(k::nat) (b::PreemptJobsBody). Returns Fulfilled :: string Call"
  let ?msg = "\<lambda>e. ''error: '' @ e"
  let ?jobs = "[\<lparr>jobId = ''a'', queue = ''q1'', jobSet = ''s1''\<rparr>,
      \<lparr>jobId = ''b'', queue = ''q2'', jobSet = ''s1''\<rparr>,
      \<lparr>jobId = ''c'', queue = ''q2'', jobSet = ''s1''\<rparr>,
      \<lparr>jobId = ''d'', queue = ''q1'', jobSet = ''s1''\<rparr>]"
  have batches: "concat (allBatches (createJobBatches ?jobs maxJobsPerRequest))
      = [''a'', ''d'', ''b'', ''c'']"
    by (simp add: allBatches_def createJobBatches_def createJobBatches_step_def Map_has_def
        Map_get_def Map_set_def maxJobsPerRequest_def)
  have "\<exists>response.
    mutationFn ?config ?api ?msg ?jobs ''why'' = (Inr response, batchRequests ''why'' ?jobs)
    \<and> failedJobIds response = []
    \<and> successfulJobIds response = concat (allBatches (createJobBatches ?jobs maxJobsPerRequest))
    \<and> (\<forall>i. count_list (successfulJobIds response) i = count_list (map jobId ?jobs) i)
    \<and> (distinct (map jobId ?jobs) \<longrightarrow>
          (\<forall>i\<in>jobId ` set ?jobs. count_list (successfulJobIds response) i = 1))"
    by (rule C5_all_success) simp_all
  then obtain response where
    run: "mutationFn ?config ?api ?msg ?jobs ''why'' = (Inr response, batchRequests ''why'' ?jobs)"
    and failed: "failedJobIds response = []"
    and successful: "successfulJobIds response
      = concat (allBatches (createJobBatches ?jobs maxJobsPerRequest))"
    and once: "distinct (map jobId ?jobs) \<longrightarrow>
      (\<forall>i\<in>jobId ` set ?jobs. count_list (successfulJobIds response) i = 1)"
    by blast
  from failed successful have response:
    "response = \<lparr>successfulJobIds = [''a'', ''d'', ''b'', ''c''], failedJobIds = []\<rparr>"
    unfolding batches by simp
  from once have "count_list [''a'', ''d'', ''b'', ''c''] ''c'' = 1"
    unfolding response by simp
  with run show ?thesis unfolding response example_requests by simp
qed

text \<open>
  C5 as stated, for every list of input jobs, fails when a job is submitted twice: its job
  ID is then twice in \<open>successfulJobIds\<close>.
\<close>

theorem C5_repeated_job_counterexample:
  "fst (mutationFn \<lparr>fakeDataEnabled = False\<rparr> (\<lambda>k b. Returns Fulfilled)
     (\<lambda>e. ''error: '' @ e)
     [\<lparr>jobId = ''a'', queue = ''q1'', jobSet = ''s1''\<rparr>,
      \<lparr>jobId = ''a'', queue = ''q1'', jobSet = ''s1''\<rparr>] ''why'')
   = Inr \<lparr>successfulJobIds = [''a'', ''a''], failedJobIds = []\<rparr>
   \<and> count_list [''a'', ''a''] ''a'' = 2"
  by (simp add: mutationFn_def Let_def requestBodies_def createJobBatches_def
      createJobBatches_step_def Map_has_def Map_get_def Map_set_def maxJobsPerRequest_def)

text \<open>
  C9: with fake-data mode off, when the call at position \<open>k\<close> throws an error and the
  calls before it returned their promises, the mutation returns no response: it throws the
  string that \<open>getErrorMessage\<close> gives for that error, and no call is made after the one
  that threw. Conversely, whatever the mutation throws is \<open>getErrorMessage\<close> of the error of
  a call that threw: a rejected promise never makes the mutation throw.
\<close>

theorem C9_top_level_error:
  assumes "\<not> fakeDataEnabled config"
  shows "(\<forall>k e. k < length (batchRequests reason jobs)
            \<and> submitApi k (batchRequests reason jobs ! k) = Throws e
            \<and> (\<forall>i<k. \<exists>p. submitApi i (batchRequests reason jobs ! i) = Returns p)
          \<longrightarrow> mutationFn config submitApi getErrorMessage jobs reason
                = (Inl (getErrorMessage e), take (Suc k) (batchRequests reason jobs)))
     \<and> (\<forall>msg. fst (mutationFn config submitApi getErrorMessage jobs reason) = Inl msg
          \<longrightarrow> (\<exists>k<length (batchRequests reason jobs). \<exists>e.
                submitApi k (batchRequests reason jobs ! k) = Throws e
                \<and> msg = getErrorMessage e))"
proof (intro conjI allI impI)
  fix k e
  assume a: "k < length (batchRequests reason jobs)
    \<and> submitApi k (batchRequests reason jobs ! k) = Throws e
    \<and> (\<forall>i<k. \<exists>p. submitApi i (batchRequests reason jobs ! i) = Returns p)"
  have "issueRequests submitApi 0 (batchRequests reason jobs)
      = (Inl e, take (Suc k) (batchRequests reason jobs))"
    by (rule issueRequests_throws) (use a in simp_all)
  then show "mutationFn config submitApi getErrorMessage jobs reason
      = (Inl (getErrorMessage e), take (Suc k) (batchRequests reason jobs))"
    unfolding mutationFn_eval[OF assms] by simp
next
  fix msg
  assume msg: "fst (mutationFn config submitApi getErrorMessage jobs reason) = Inl msg"
  obtain res calls where run: "issueRequests submitApi 0 (batchRequests reason jobs) = (res, calls)"
    by (cases "issueRequests submitApi 0 (batchRequests reason jobs)")
  with msg obtain e where "res = Inl e" and m: "msg = getErrorMessage e"
    unfolding mutationFn_eval[OF assms] by (cases res) auto
  with run issueRequests_Inl[of submitApi 0 "batchRequests reason jobs" e calls]
  obtain k where "k < length (batchRequests reason jobs)"
    "submitApi k (batchRequests reason jobs ! k) = Throws e"
    by auto
  with m show "\<exists>k<length (batchRequests reason jobs). \<exists>e.
      submitApi k (batchRequests reason jobs ! k) = Throws e \<and> msg = getErrorMessage e"
    by blast
qed

theorem C9_top_level_error_witness:
  "mutationFn \<lparr>fakeDataEnabled = False\<rparr>
     (\<lambda>k b. if k = 0 then Returns Fulfilled else Throws ''down'')
     (\<lambda>e. ''error: '' @ e)
     [\<lparr>jobId = ''a'', queue = ''q1'', jobSet = ''s1''\<rparr>,
      \<lparr>jobId = ''b'', queue = ''q2'', jobSet = ''s1''\<rparr>,
      \<lparr>jobId = ''c'', queue = ''q2'', jobSet = ''s1''\<rparr>,
      \<lparr>jobId = ''d'', queue = ''q1'', jobSet = ''s1''\<rparr>] ''why''
   = (Inl ''error: down'',
      [\<lparr>body_jobIds = [''a'', ''d''], body_queue = ''q1'', body_jobSetId = ''s1'',
         body_reason = ''why''\<rparr>,
       \<lparr>body_jobIds = [''b'', ''c''], body_queue = ''q2'', body_jobSetId = ''s1'',
         body_reason = ''why''\<rparr>])"
proof -
  let ?config = "\<lparr>fakeDataEnabled = False\<rparr>"
  let ?api = "\<lambda>(k::nat) (b::PreemptJobsBody).
    if k = 0 then Returns Fulfilled else (Throws ''down'' :: string Call)"
  let ?msg = "\<lambda>e. ''error: '' @ e"
  let ?jobs = "[\<lparr>jobId = ''a'', queue = ''q1'', jobSet = ''s1''\<rparr>,
      \<lparr>jobId = ''b'', queue = ''q2'', jobSet = ''s1''\<rparr>,
      \<lparr>jobId = ''c'', queue = ''q2'', jobSet = ''s1''\<rparr>,
      \<lparr>jobId = ''d'', queue = ''q1'', jobSet = ''s1''\<rparr>]"
  have fake: "\<not> fakeDataEnabled ?config" by simp
  have throws: "1 < length (batchRequests ''why'' ?jobs)
      \<and> ?api 1 (batchRequests ''why'' ?jobs ! 1) = Throws ''down''
      \<and> (\<forall>i<1. \<exists>p. ?api i (batchRequests ''why'' ?jobs ! i) = Returns p)"
    unfolding example_requests by simp
  from C9_top_level_error [where submitApi = ?api and getErrorMessage = ?msg
      and jobs = ?jobs and reason = "''why''", OF fake]
  have "1 < length (batchRequests ''why'' ?jobs)
      \<and> ?api 1 (batchRequests ''why'' ?jobs ! 1) = Throws ''down''
      \<and> (\<forall>i<1. \<exists>p. ?api i (batchRequests ''why'' ?jobs ! i) = Returns p)
    \<longrightarrow> mutationFn ?config ?api ?msg ?jobs ''why''
        = (Inl (?msg ''down''), take (Suc 1) (batchRequests ''why'' ?jobs))"
    by blast
  with throws have "mutationFn ?config ?api ?msg ?jobs ''why''
      = (Inl (?msg ''down''), take (Suc 1) (batchRequests ''why'' ?jobs))"
    by (rule rev_mp)
  then show ?thesis unfolding example_requests by simp
qed

text \<open>
  C10: in fake-data mode the mutation makes no call and returns the response whose
  \<open>successfulJobIds\<close> are the job IDs of the input jobs in input order and whose
  \<open>failedJobIds\<close> is empty.
\<close>

theorem C10_fake_data:
  assumes "fakeDataEnabled config"
  shows "mutationFn config submitApi getErrorMessage jobs reason
    = (Inr \<lparr>successfulJobIds = map jobId jobs, failedJobIds = []\<rparr>, [])"
  using assms by (simp add: mutationFn_def)

theorem C10_fake_data_witness:
  "mutationFn \<lparr>fakeDataEnabled = True\<rparr>
     (\<lambda>k b. if k = 0 then Returns Fulfilled else Throws ''down'')
     (\<lambda>e. ''error: '' @ e)
     [\<lparr>jobId = ''a'', queue = ''q1'', jobSet = ''s1''\<rparr>,
      \<lparr>jobId = ''b'', queue = ''q2'', jobSet = ''s1''\<rparr>,
      \<lparr>jobId = ''c'', queue = ''q2'', jobSet = ''s1''\<rparr>,
      \<lparr>jobId = ''d'', queue = ''q1'', jobSet = ''s1''\<rparr>] ''why''
   = (Inr \<lparr>successfulJobIds = [''a'', ''b'', ''c'', ''d''], failedJobIds = []\<rparr>, [])"
proof -
  have fake: "fakeDataEnabled \<lparr>fakeDataEnabled = True\<rparr>" by simp
  show ?thesis
    unfolding C10_fake_data [OF fake] by simp
qed

end
